theory Spec2Isabelle
  imports Complex_Main "HOL-Library.AList"
begin

section \<open>Data model\<close>

text \<open>
  \<open>mcp.types.Tool\<close> and the two pydantic models of \<open>schemas.py\<close>. The fields of
  \<open>ServerConfig\<close> carry the values pydantic has already type-checked; the defaults
  (\<open>None\<close>, \<open>[]\<close>, \<open>{}\<close>) are the empty values of the field types.
\<close>

record Tool =
  name :: string
  description :: "string option"

record ServerConfig =
  command :: "string option"
  args :: "string list"
  env :: "(string \<times> string) list"
  url :: "string option"
  headers :: "(string \<times> string) list"

record Server =
  name :: string
  description :: "string option"
  config :: ServerConfig
  tools :: "Tool list option"

section \<open>Tool visibility registry\<close>

text \<open>
  The program has no registry: \<open>tool_registry.py\<close> consists of one module-level
  string literal that holds a sketch of a class and defines nothing, and
  \<open>router.py\<close> refers to no registry. The registry below is the component the
  specification describes (section 4.1): per server, the set of tool names the
  agent may see. Each operation is atomic, so it takes the registry and returns the
  new one.
\<close>

type_synonym registry = "string \<rightharpoonup> string set"

text \<open>
  Modelled from the spec: the registry before any operation (a visibility set "may
  start empty"); no server has a recorded visibility set. The program defines no
  registry.
\<close>

definition emptyRegistry :: registry where
  "emptyRegistry = Map.empty"




text \<open>
  Modelled from the spec: \<open>exposeTool(server, tool)\<close>, missing from the program.
  "Adds tool to the server's visibility set; no-op if already present; creates the
  server's entry if it did not exist."
\<close>

definition exposeTool :: "registry \<Rightarrow> string \<Rightarrow> string \<Rightarrow> registry" where
  "exposeTool reg server tool =
     reg(server \<mapsto> insert tool (case reg server of None \<Rightarrow> {} | Some ts \<Rightarrow> ts))"

text \<open>
  Modelled from the spec: \<open>hideTool(server, tool)\<close>, missing from the program.
  "Removes tool from the visibility set if present; no-op otherwise."
\<close>

definition hideTool :: "registry \<Rightarrow> string \<Rightarrow> string \<Rightarrow> registry" where
  "hideTool reg server tool =
     (case reg server of
        None \<Rightarrow> reg
      | Some ts \<Rightarrow> if tool \<in> ts then reg(server \<mapsto> ts - {tool}) else reg)"

text \<open>
  Modelled from the spec: \<open>listExposed(server)\<close>, missing from the program. It
  "returns a snapshot copy" of the server's set of tool names.
\<close>

definition listExposed :: "registry \<Rightarrow> string \<Rightarrow> string set" where
  "listExposed reg server = (case reg server of None \<Rightarrow> {} | Some ts \<Rightarrow> ts)"

text \<open>
  Modelled from the spec: \<open>isExposed(server, tool)\<close>, missing from the program;
  "false for any server with no recorded visibility set".
\<close>

definition isExposed :: "registry \<Rightarrow> string \<Rightarrow> string \<Rightarrow> bool" where
  "isExposed reg server tool =
     (case reg server of None \<Rightarrow> False | Some ts \<Rightarrow> tool \<in> ts)"

section \<open>Python values, exceptions and awaited calls\<close>

text \<open>
  \<open>dict[str, Any]\<close> values (tool parameters, the matcher's answer) are association
  lists over a datatype of Python values. An exception is a value; the message is
  the text the source formats.
\<close>

datatype pyval =
    PyNone
  | PyBool bool
  | PyInt int
  | PyFloat real
  | PyStr string
  | PyList "pyval list"
  | PyDict "(string \<times> pyval) list"

type_synonym pydict = "(string \<times> pyval) list"

datatype exn =
    ValueError string
  | TypeError string
  | ValidationError string
  | TimeoutError
  | OtherError string

text \<open>
  \<open>mcp.types.CallToolResult\<close> and its content blocks. The constructor
  \<open>types.TextContent(text=...)\<close> belongs to the \<open>mcp\<close> library and is a parameter of
  the model: given the text, it builds a block or raises.
\<close>

datatype ContentBlock = TextContent string | OtherContent pyval

record CallToolResult =
  isError :: bool
  content :: "ContentBlock list"

type_synonym mcp_types = "string \<Rightarrow> exn + ContentBlock"

text \<open>
  What an external coroutine does. Left to run, it finishes with a value after some
  time, raises after some time, or never completes; times are in the unit of the
  \<open>timeout\<close> argument, counted from the start of the coroutine. Cancelled while
  pending, it ends as cancelled, returns a value or raises all the same, or never
  ends.
\<close>

datatype 'a awaited = Finishes nat 'a | Throws nat exn | Hangs

datatype 'a cancelled = Cancelled | CancelFinishes 'a | CancelThrows exn | CancelHangs

record 'a coroutine =
  runs :: "'a awaited"
  on_cancel :: "'a cancelled"

datatype 'a waited = Got 'a | Raised exn | Stuck

text \<open>
  \<open>asyncio.wait_for\<close> at its deadline: it cancels the call and waits for it to end.
  A call that ends as cancelled gives \<open>TimeoutError\<close>; a value or another exception
  it ends with is passed on; if it never ends, \<open>wait_for\<close> never returns.
\<close>

definition cancel_and_wait :: "'a coroutine \<Rightarrow> 'a waited" where
  "cancel_and_wait co =
     (case on_cancel co of
        Cancelled \<Rightarrow> Raised TimeoutError
      | CancelFinishes r \<Rightarrow> Got r
      | CancelThrows e \<Rightarrow> Raised e
      | CancelHangs \<Rightarrow> Stuck)"

text \<open>
  \<open>asyncio.wait_for(co, timeout)\<close>. The first component tells whether \<open>co\<close> was
  started. With \<open>timeout <= 0\<close> the call is cancelled before it starts and
  \<open>TimeoutError\<close> is raised. Otherwise the timer is armed before the call starts, so
  the call wins only when it completes strictly before \<open>timeout\<close>.
\<close>

definition wait_for :: "'a coroutine \<Rightarrow> int \<Rightarrow> bool \<times> 'a waited" where
  "wait_for co timeout =
     (if timeout \<le> 0 then (False, Raised TimeoutError)
      else (True,
            case runs co of
              Finishes d r \<Rightarrow> if int d < timeout then Got r else cancel_and_wait co
            | Throws d e \<Rightarrow> if int d < timeout then Raised e else cancel_and_wait co
            | Hangs \<Rightarrow> cancel_and_wait co))"

section \<open>Server descriptors (\<open>schemas.py\<close>)\<close>

text \<open>Python truthiness of a \<open>str | None\<close> field: \<open>None\<close> and \<open>""\<close> are falsy.\<close>

fun truthy :: "string option \<Rightarrow> bool" where
  "truthy None = False"
| "truthy (Some s) = (s \<noteq> [])"

text \<open>
  The \<open>model_validator(mode="after")\<close> of \<open>ServerConfig\<close>. pydantic reports the
  \<open>ValueError\<close> raised inside a validator as a \<open>ValidationError\<close> of the constructor
  call.
\<close>

definition check_command_or_url :: "ServerConfig \<Rightarrow> exn + ServerConfig" where
  "check_command_or_url self =
     (if \<not> truthy (command self) \<and> \<not> truthy (url self)
      then Inl (ValidationError ''Either 'command' or 'url' must be provided'')
      else Inr self)"

section \<open>The router (\<open>router.py\<close>)\<close>

subsection \<open>Construction\<close>

record ConfigDoc =
  mcpServers :: "(string \<times> ServerConfig) list option"

datatype config_arg = ConfigDict ConfigDoc | ConfigPath string | ConfigOther

record ToolMatcher =
  embedding_model :: "string option"
  dimensions :: int
  top_servers :: int
  top_tools :: int
  client :: "(string option \<times> string) option"
  data :: "string option"

record Router =
  servers :: "(string \<times> Server) list"
  config :: ConfigDoc
  matcher :: ToolMatcher

text \<open>
  What \<open>Router.__init__\<close> reads from outside the program: the environment
  variables, the file system (\<open>Path.exists\<close>, \<open>os.path.exists\<close>, \<open>open\<close> with
  \<open>json.load\<close>), Python's \<open>int(str)\<close>, the directory of the module, and the two
  \<open>ToolMatcher\<close> methods called after the checks (module \<open>matcher\<close> is an external
  collaborator: each method either returns or raises; the constructor stores its
  arguments).
\<close>

record runtime =
  getenv :: "string \<rightharpoonup> string"
  path_exists :: "string \<Rightarrow> bool"
  json_load :: "string \<Rightarrow> exn + ConfigDoc"
  py_int :: "string \<Rightarrow> int option"
  PROJECT_ROOT :: string
  setup_openai_client :: "string option \<Rightarrow> string \<Rightarrow> exn option"
  load_data :: "string \<Rightarrow> exn option"

definition bind_exn :: "exn + 'a \<Rightarrow> ('a \<Rightarrow> exn + 'b) \<Rightarrow> exn + 'b" where
  "bind_exn m f = (case m of Inl e \<Rightarrow> Inl e | Inr x \<Rightarrow> f x)"

definition load_config :: "runtime \<Rightarrow> config_arg \<Rightarrow> exn + ConfigDoc" where
  "load_config rt cfg =
     (case cfg of
        ConfigDict d \<Rightarrow> Inr d
      | ConfigPath p \<Rightarrow>
          (if path_exists rt p then json_load rt p
           else Inr \<lparr>mcpServers = Some []\<rparr>)
      | ConfigOther \<Rightarrow>
          Inl (ValueError ''Config must be a dictionary or a Path to a JSON file.''))"

fun build_servers ::
  "(string \<times> Server) list \<Rightarrow> (string \<times> ServerConfig) list \<Rightarrow> exn + (string \<times> Server) list"
where
  "build_servers acc [] = Inr acc"
| "build_servers acc ((key, config_data) # items) =
     (case check_command_or_url config_data of
        Inl e \<Rightarrow> Inl e
      | Inr c \<Rightarrow>
          build_servers
            (AList.update key
               \<lparr>Server.name = key, description = None, config = c, tools = None\<rparr> acc)
            items)"

text \<open>\<open>int(os.getenv(name))\<close> and \<open>int(os.getenv(name, default))\<close>.\<close>

definition int_of_env :: "runtime \<Rightarrow> string \<Rightarrow> int option \<Rightarrow> exn + int" where
  "int_of_env rt var fallback =
     (case getenv rt var of
        None \<Rightarrow>
          (case fallback of
             None \<Rightarrow> Inl (TypeError
               (''int() argument must be a string, a bytes-like object or a real number, not 'NoneType''
                  @ [CHR 0x27]))
           | Some n \<Rightarrow> Inr n)
      | Some s \<Rightarrow>
          (case py_int rt s of
             None \<Rightarrow> Inl (ValueError
               (''invalid literal for int() with base 10: '' @ CHR 0x27 # s @ [CHR 0x27]))
           | Some n \<Rightarrow> Inr n))"

text \<open>\<open>str(x)\<close> inside an f-string for a value that is a string or \<open>None\<close>.\<close>

definition py_str :: "string option \<Rightarrow> string" where
  "py_str x = (case x of None \<Rightarrow> ''None'' | Some s \<Rightarrow> s)"

definition default_data_path :: "runtime \<Rightarrow> string" where
  "default_data_path rt =
     PROJECT_ROOT rt @ ''/config/mcp_arg_'' @ py_str (getenv rt ''EMBEDDING_MODEL'')
       @ ''_'' @ py_str (getenv rt ''ABSTRACT_MODEL'') @ ''.json''"

text \<open>\<open>os.getenv("MCP_DATA_PATH", default_data_path)\<close>.\<close>

definition data_path_of :: "runtime \<Rightarrow> string" where
  "data_path_of rt =
     (case getenv rt ''MCP_DATA_PATH'' of None \<Rightarrow> default_data_path rt | Some p \<Rightarrow> p)"

definition Router_init :: "runtime \<Rightarrow> config_arg \<Rightarrow> exn + Router" where
  "Router_init rt cfg =
     bind_exn (load_config rt cfg) (\<lambda>config.
     bind_exn (build_servers []
                 (case mcpServers config of None \<Rightarrow> [] | Some items \<Rightarrow> items)) (\<lambda>servers.
     bind_exn (int_of_env rt ''EMBEDDING_DIMENSIONS'' None) (\<lambda>dims.
     bind_exn (int_of_env rt ''TOP_SERVERS'' (Some 5)) (\<lambda>top_s.
     bind_exn (int_of_env rt ''TOP_TOOLS'' (Some 3)) (\<lambda>top_t.
       let base_url = getenv rt ''EMBEDDING_BASE_URL'';
           api_key = getenv rt ''EMBEDDING_API_KEY'';
           data_path = data_path_of rt
       in
         if \<not> truthy api_key
         then Inl (ValueError ''EMBEDDING_API_KEY environment variable not set.'')
         else if data_path = [] \<or> \<not> path_exists rt data_path
         then Inl (ValueError (''MCP_DATA_PATH not set or file not found at: '' @ data_path))
         else
           (case setup_openai_client rt base_url (py_str api_key) of
              Some e \<Rightarrow> Inl e
            | None \<Rightarrow>
               (case load_data rt data_path of
                  Some e \<Rightarrow> Inl e
                | None \<Rightarrow>
                    Inr \<lparr>servers = servers, config = config,
                         matcher = \<lparr>embedding_model = getenv rt ''EMBEDDING_MODEL'',
                                    dimensions = dims, top_servers = top_s, top_tools = top_t,
                                    client = Some (base_url, py_str api_key),
                                    data = Some data_path\<rparr>\<rparr>)))))))"

text \<open>\<open>Router()\<close>: the default argument is \<open>PROJECT_ROOT / "config" / "clean_config.json"\<close>.\<close>

definition Router_init_default :: "runtime \<Rightarrow> exn + Router" where
  "Router_init_default rt =
     Router_init rt (ConfigPath (PROJECT_ROOT rt @ ''/config/clean_config.json''))"

subsection \<open>Routing\<close>

text \<open>
  \<open>ToolMatcher.match\<close> belongs to the external matcher; \<open>route\<close> takes it as a
  parameter and returns what it returns.
\<close>

definition route :: "(ToolMatcher \<Rightarrow> string \<Rightarrow> pydict) \<Rightarrow> Router \<Rightarrow> string \<Rightarrow> pydict" where
  "route match self query = match (matcher self) query"

subsection \<open>Dispatch\<close>

text \<open>
  \<open>MCPConnection\<close> (module \<open>mcp_connection\<close>) is the external transport. It is a
  parameter: what entering the connection for a server does, and what the remote
  \<open>call_tool\<close> does. Leaving the connection closes it and does not swallow an
  exception of the body.
\<close>

record MCPConnection =
  aenter :: "Server \<Rightarrow> unit awaited"
  remote_call_tool :: "Server \<Rightarrow> string \<Rightarrow> pydict \<Rightarrow> CallToolResult coroutine"

text \<open>
  What an invocation does that others can observe: it takes and releases the lock,
  starts entering a connection, has it open or fails to open it, starts the remote
  call, closes the connection.
\<close>

datatype event =
    LockAcquired
  | LockReleased
  | Connecting string
  | ConnOpened string
  | ConnFailed string
  | Invoked string string pydict
  | ConnClosed string

datatype outcome = Returns CallToolResult | Raises exn | NoReturn

text \<open>
  \<open>async with self.connection_lock:\<close> around a body: the lock is taken first and
  released on every exit of the body, by return or by exception. A body that never
  completes never releases it.
\<close>

definition with_lock :: "outcome \<times> event list \<Rightarrow> outcome \<times> event list" where
  "with_lock body =
     (case fst body of
        NoReturn \<Rightarrow> (NoReturn, LockAcquired # snd body)
      | out \<Rightarrow> (out, LockAcquired # snd body @ [LockReleased]))"

text \<open>
  \<open>async with MCPConnection(server) as connection:\<close> around a body. When entering
  raises, the body does not run and there is nothing to close; when entering never
  completes, nothing follows.
\<close>

definition with_connection ::
  "MCPConnection \<Rightarrow> Server \<Rightarrow> outcome \<times> event list \<Rightarrow> outcome \<times> event list"
where
  "with_connection conn server body =
     (case aenter conn server of
        Hangs \<Rightarrow> (NoReturn, [Connecting (Server.name server)])
      | Throws d e \<Rightarrow>
          (Raises e, [Connecting (Server.name server), ConnFailed (Server.name server)])
      | Finishes d u \<Rightarrow>
          (case fst body of
             NoReturn \<Rightarrow>
               (NoReturn,
                Connecting (Server.name server) # ConnOpened (Server.name server) # snd body)
           | out \<Rightarrow>
               (out,
                Connecting (Server.name server) # ConnOpened (Server.name server) # snd body
                  @ [ConnClosed (Server.name server)])))"

text \<open>\<open>params or {}\<close>.\<close>

definition args_of :: "pydict option \<Rightarrow> pydict" where
  "args_of params = (case params of None \<Rightarrow> [] | Some p \<Rightarrow> p)"

text \<open>
  The \<open>except asyncio.TimeoutError\<close> branch: it builds the text block and returns
  the error result; an exception raised while building the block leaves the branch
  instead.
\<close>

definition timed_out_result :: "mcp_types \<Rightarrow> string \<Rightarrow> string \<Rightarrow> outcome" where
  "timed_out_result mcp tool_name server_name =
     (case mcp (''Tool '' @ tool_name @ '' in '' @ server_name @ '' call timed out.'') of
        Inl e \<Rightarrow> Raises e
      | Inr block \<Rightarrow> Returns \<lparr>isError = True, content = [block]\<rparr>)"

definition call_tool ::
  "mcp_types \<Rightarrow> Router \<Rightarrow> MCPConnection \<Rightarrow> string \<Rightarrow> string \<Rightarrow> pydict option \<Rightarrow> int
   \<Rightarrow> outcome \<times> event list"
where
  "call_tool mcp self conn server_name tool_name params timeout =
     with_lock
       (case map_of (servers self) server_name of
          None \<Rightarrow>
            (Raises (ValueError
               (''Server '' @ CHR 0x27 # server_name @ CHR 0x27
                  # '' is not defined in the configuration.'')), [])
        | Some server_config \<Rightarrow>
            with_connection conn server_config
              (let args = args_of params;
                   waited = wait_for (remote_call_tool conn server_config tool_name args) timeout
               in
               (case snd waited of
                  Got result \<Rightarrow> Returns result
                | Raised TimeoutError \<Rightarrow> timed_out_result mcp tool_name server_name
                | Raised e \<Rightarrow> Raises e
                | Stuck \<Rightarrow> NoReturn,
                if fst waited
                then [Invoked (Server.name server_config) tool_name args] else [])))"

text \<open>The defaults of the signature: \<open>params = None\<close>, \<open>timeout = 300\<close>.\<close>

definition call_tool_default ::
  "mcp_types \<Rightarrow> Router \<Rightarrow> MCPConnection \<Rightarrow> string \<Rightarrow> string \<Rightarrow> outcome \<times> event list"
where
  "call_tool_default mcp self conn server_name tool_name =
     call_tool mcp self conn server_name tool_name None 300"

subsection \<open>Invocations in flight together\<close>

text \<open>
  Several \<open>call_tool\<close> invocations in one process, each on one of the process's
  \<open>Router\<close> objects. A coroutine runs from one \<open>await\<close> to the next without
  interruption, so an execution is an interleaving of the event sequences of the
  invocations. \<open>Router.__init__\<close> creates one \<open>asyncio.Lock\<close> per object
  (\<open>self.connection_lock\<close>): an invocation can take the lock of its router only
  while no invocation holds that lock, and waits otherwise. A task records the
  router it runs on, the events it has performed and the events it still has to
  perform.
\<close>

record invocation =
  inv_router :: nat
  inv_conn :: MCPConnection
  inv_server :: string
  inv_tool :: string
  inv_params :: "pydict option"
  inv_timeout :: int

record task =
  task_router :: nat
  performed :: "event list"
  pending :: "event list"

record dispatch_state =
  locks :: "nat \<rightharpoonup> nat"
  tasks :: "task list"

definition start ::
  "mcp_types \<Rightarrow> (nat \<Rightarrow> Router) \<Rightarrow> invocation list \<Rightarrow> dispatch_state"
where
  "start mcp routers calls =
     \<lparr>locks = Map.empty,
      tasks = map (\<lambda>c. \<lparr>task_router = inv_router c, performed = [],
                         pending = snd (call_tool mcp (routers (inv_router c)) (inv_conn c)
                                          (inv_server c) (inv_tool c) (inv_params c)
                                          (inv_timeout c))\<rparr>) calls\<rparr>"

text \<open>
  Task \<open>i\<close> performs its next event. There is no step for a task that has finished,
  and none for a task whose next event takes a lock that is held.
\<close>

definition step :: "dispatch_state \<Rightarrow> nat \<Rightarrow> dispatch_state option" where
  "step st i =
     (if i < length (tasks st) then
        (let t = tasks st ! i in
         case pending t of
           [] \<Rightarrow> None
         | e # rest \<Rightarrow>
             if e = LockAcquired \<and> locks st (task_router t) \<noteq> None then None
             else Some \<lparr>locks =
                          (if e = LockAcquired then (locks st)(task_router t \<mapsto> i)
                           else if e = LockReleased then (locks st)(task_router t := None)
                           else locks st),
                        tasks = (tasks st)[i := t\<lparr>performed := performed t @ [e],
                                                    pending := rest\<rparr>]\<rparr>)
      else None)"

fun run :: "dispatch_state \<Rightarrow> nat list \<Rightarrow> dispatch_state option" where
  "run st [] = Some st"
| "run st (i # schedule) =
     (case step st i of None \<Rightarrow> None | Some st' \<Rightarrow> run st' schedule)"

text \<open>
  Where an invocation stands after the events it has performed: inside the section
  guarded by the lock; inside the connect, invoke, close section (from the start of
  connecting until the connection is closed or has failed to open); with its
  connection open.
\<close>

fun holds_after :: "bool \<Rightarrow> event \<Rightarrow> bool" where
  "holds_after h LockAcquired = True"
| "holds_after h LockReleased = False"
| "holds_after h e = h"

fun active_after :: "bool \<Rightarrow> event \<Rightarrow> bool" where
  "active_after a (Connecting s) = True"
| "active_after a (ConnFailed s) = False"
| "active_after a (ConnClosed s) = False"
| "active_after a e = a"

fun open_after :: "bool \<Rightarrow> event \<Rightarrow> bool" where
  "open_after c (ConnOpened s) = True"
| "open_after c (ConnClosed s) = False"
| "open_after c e = c"

definition in_critical :: "event list \<Rightarrow> bool" where
  "in_critical past = foldl holds_after False past"

definition connection_active :: "event list \<Rightarrow> bool" where
  "connection_active past = foldl active_after False past"

definition connection_open :: "event list \<Rightarrow> bool" where
  "connection_open past = foldl open_after False past"

text \<open>The numbers of invocations in the connection section and with an open connection.\<close>

definition active_connections :: "dispatch_state \<Rightarrow> nat" where
  "active_connections st = length (filter (\<lambda>t. connection_active (performed t)) (tasks st))"

definition open_connections :: "dispatch_state \<Rightarrow> nat" where
  "open_connections st = length (filter (\<lambda>t. connection_open (performed t)) (tasks st))"

text \<open>
  A monitor for the events still to come, started where the invocation stands: every
  event other than taking the lock is performed while holding it, and the
  connection section and an open connection lie inside the lock.
\<close>

fun guarded :: "bool \<Rightarrow> bool \<Rightarrow> bool \<Rightarrow> event list \<Rightarrow> bool" where
  "guarded h a c [] = ((a \<longrightarrow> h) \<and> (c \<longrightarrow> h))"
| "guarded h a c (e # es) =
     ((a \<longrightarrow> h) \<and> (c \<longrightarrow> h) \<and> (e \<noteq> LockAcquired \<longrightarrow> h)
      \<and> guarded (holds_after h e) (active_after a e) (open_after c e) es)"

definition dispatch_inv :: "dispatch_state \<Rightarrow> bool" where
  "dispatch_inv st =
     (\<forall>i < length (tasks st).
        guarded (in_critical (performed (tasks st ! i)))
          (connection_active (performed (tasks st ! i)))
          (connection_open (performed (tasks st ! i))) (pending (tasks st ! i))
        \<and> (in_critical (performed (tasks st ! i))
             \<longleftrightarrow> locks st (task_router (tasks st ! i)) = Some i))"

section \<open>A small catalog used in the examples\<close>

text \<open>
  Server \<open>files\<close> offers \<open>read\<close>, \<open>write\<close> and \<open>delete\<close>; the registry exposes
  \<open>read\<close> and \<open>write\<close> only; the stub connection opens after one time unit and
  answers every call after two; the stub matcher ranks all three tools.
\<close>

definition files_server :: Server where
  "files_server =
     \<lparr>Server.name = ''files'', description = None,
      config = \<lparr>command = Some ''files-mcp'', args = [], env = [], url = None, headers = []\<rparr>,
      tools = Some [\<lparr>Tool.name = ''read'', description = None\<rparr>,
                    \<lparr>Tool.name = ''write'', description = None\<rparr>,
                    \<lparr>Tool.name = ''delete'', description = None\<rparr>]\<rparr>"

definition files_router :: Router where
  "files_router =
     \<lparr>servers = [(''files'', files_server)],
      config = \<lparr>mcpServers = Some [(''files'', Server.config files_server)]\<rparr>,
      matcher = \<lparr>embedding_model = Some ''emb'', dimensions = 8, top_servers = 5,
                 top_tools = 3, client = Some (None, ''key''), data = Some ''/data.json''\<rparr>\<rparr>"

definition files_registry :: registry where
  "files_registry =
     exposeTool (exposeTool emptyRegistry ''files'' ''read'') ''files'' ''write''"

definition ok_result :: CallToolResult where
  "ok_result = \<lparr>isError = False, content = [TextContent ''ok'']\<rparr>"

definition stub_connection :: MCPConnection where
  "stub_connection =
     \<lparr>aenter = (\<lambda>server. Finishes 1 ()),
      remote_call_tool = (\<lambda>server tool_name args.
         \<lparr>runs = Finishes 2 ok_result, on_cancel = Cancelled\<rparr>)\<rparr>"

text \<open>
  A connection that takes 1000 time units to open. Its tool \<open>sleep\<close> never answers,
  \<open>late\<close> answers after exactly 300 time units, \<open>soon\<close> after 299, every other tool
  after 2. A cancelled call ends as cancelled.
\<close>

definition slow_connection :: MCPConnection where
  "slow_connection =
     \<lparr>aenter = (\<lambda>server. Finishes 1000 ()),
      remote_call_tool = (\<lambda>server tool_name args.
         \<lparr>runs = (if tool_name = ''sleep'' then Hangs
                   else if tool_name = ''late'' then Finishes 300 ok_result
                   else if tool_name = ''soon'' then Finishes 299 ok_result
                   else Finishes 2 ok_result),
          on_cancel = Cancelled\<rparr>)\<rparr>"

text \<open>
  The \<open>mcp\<close> library, version 1: \<open>TextContent\<close> declares \<open>type: Literal["text"]\<close>
  without a default next to \<open>text: str\<close>, so building a block from the text alone
  fails validation. The message of the error is abridged.
\<close>

definition mcp_v1 :: mcp_types where
  "mcp_v1 text = Inl (ValidationError ''TextContent: type: Field required'')"


definition both_forms :: ServerConfig where
  "both_forms =
     \<lparr>command = Some ''npx'', args = [''serve''], env = [],
      url = Some ''http://localhost:8000/mcp'', headers = []\<rparr>"

definition neither_form :: ServerConfig where
  "neither_form = \<lparr>command = None, args = [], env = [], url = Some [], headers = []\<rparr>"

definition good_runtime :: runtime where
  "good_runtime =
     \<lparr>getenv = [''EMBEDDING_MODEL'' \<mapsto> ''emb'', ''EMBEDDING_DIMENSIONS'' \<mapsto> ''8'',
                ''EMBEDDING_API_KEY'' \<mapsto> ''key'', ''MCP_DATA_PATH'' \<mapsto> ''/data.json''],
      path_exists = (\<lambda>p. p = ''/data.json''),
      json_load = (\<lambda>p. Inl (OtherError ''cannot read'')),
      py_int = (\<lambda>s. if s = ''8'' then Some 8 else None),
      PROJECT_ROOT = ''/app'',
      setup_openai_client = (\<lambda>base_url api_key. None),
      load_data = (\<lambda>p. None)\<rparr>"

text \<open>
  Two invocations on the \<open>files\<close> server over the stub connection: on the same
  router, and on two routers built from the same configuration.
\<close>

definition same_router_calls :: "invocation list" where
  "same_router_calls =
     [\<lparr>inv_router = 0, inv_conn = stub_connection, inv_server = ''files'',
       inv_tool = ''read'', inv_params = None, inv_timeout = 300\<rparr>,
      \<lparr>inv_router = 0, inv_conn = stub_connection, inv_server = ''files'',
       inv_tool = ''write'', inv_params = None, inv_timeout = 300\<rparr>]"

definition two_router_calls :: "invocation list" where
  "two_router_calls =
     [\<lparr>inv_router = 0, inv_conn = stub_connection, inv_server = ''files'',
       inv_tool = ''read'', inv_params = None, inv_timeout = 300\<rparr>,
      \<lparr>inv_router = 1, inv_conn = stub_connection, inv_server = ''files'',
       inv_tool = ''write'', inv_params = None, inv_timeout = 300\<rparr>]"

definition candidate :: "string \<Rightarrow> string \<Rightarrow> real \<Rightarrow> pyval" where
  "candidate server_name tool_name score =
     PyDict [(''server_name'', PyStr server_name), (''tool_name'', PyStr tool_name),
             (''score'', PyFloat score)]"

definition stub_match :: "ToolMatcher \<Rightarrow> string \<Rightarrow> pydict" where
  "stub_match m query =
     [(''success'', PyBool True),
      (''matched_tools'',
         PyList [candidate ''files'' ''read'' 0.9, candidate ''files'' ''write'' 0.8,
                 candidate ''files'' ''delete'' 0.7])]"

definition failing_match :: "ToolMatcher \<Rightarrow> string \<Rightarrow> pydict" where
  "failing_match m query =
     [(''success'', PyBool False), (''matched_tools'', PyList [])]"

section \<open>Registry: expose, hide and their frame\<close>

lemma hideTool_absent: "\<not> isExposed reg s t \<Longrightarrow> hideTool reg s t = reg"
  by (auto simp: isExposed_def hideTool_def split: option.splits)

lemma exposeTool_present: "isExposed reg s t \<Longrightarrow> exposeTool reg s t = reg"
  by (auto simp: isExposed_def exposeTool_def insert_absorb split: option.splits)

text \<open>
  C9. Right after \<open>exposeTool s t\<close> the tool is exposed and listed, and a server
  without an entry gets one holding just \<open>t\<close>; exposing an exposed tool changes
  nothing; right after \<open>hideTool s t\<close> the tool is not exposed; hiding a tool that
  was not exposed leaves the registry as it was.
\<close>

theorem expose_then_hide_membership:
  "isExposed (exposeTool reg s t) s t
   \<and> t \<in> listExposed (exposeTool reg s t) s
   \<and> (reg s = None \<longrightarrow> exposeTool reg s t s = Some {t})
   \<and> (isExposed reg s t \<longrightarrow> exposeTool reg s t = reg)
   \<and> \<not> isExposed (hideTool reg s t) s t
   \<and> (\<not> isExposed reg s t \<longrightarrow> hideTool reg s t = reg)"
proof -
  have "isExposed (exposeTool reg s t) s t"
    by (simp add: isExposed_def exposeTool_def)
  moreover have "t \<in> listExposed (exposeTool reg s t) s"
    by (simp add: listExposed_def exposeTool_def)
  moreover have "reg s = None \<longrightarrow> exposeTool reg s t s = Some {t}"
    by (simp add: exposeTool_def)
  moreover have "isExposed reg s t \<longrightarrow> exposeTool reg s t = reg"
    using exposeTool_present by blast
  moreover have "\<not> isExposed (hideTool reg s t) s t"
    by (simp add: isExposed_def hideTool_def split: option.splits)
  moreover have "\<not> isExposed reg s t \<longrightarrow> hideTool reg s t = reg"
    using hideTool_absent by blast
  ultimately show ?thesis by blast
qed

theorem expose_then_hide_membership_witness:
  "emptyRegistry ''files'' = None
   \<and> \<not> isExposed emptyRegistry ''files'' ''read''
   \<and> exposeTool emptyRegistry ''files'' ''read'' ''files'' = Some {''read''}
   \<and> isExposed (exposeTool emptyRegistry ''files'' ''read'') ''files'' ''read''
   \<and> hideTool emptyRegistry ''files'' ''read'' = emptyRegistry
   \<and> isExposed files_registry ''files'' ''read''
   \<and> exposeTool files_registry ''files'' ''read'' = files_registry"
proof -
  have none: "emptyRegistry ''files'' = None"
    by (simp add: emptyRegistry_def)
  have hidden: "\<not> isExposed emptyRegistry ''files'' ''read''"
    by (simp add: emptyRegistry_def isExposed_def)
  have shown: "isExposed files_registry ''files'' ''read''"
    by (simp add: files_registry_def emptyRegistry_def isExposed_def exposeTool_def)
  show ?thesis
    using none hidden shown
      expose_then_hide_membership [of emptyRegistry "''files''" "''read''"]
      expose_then_hide_membership [of files_registry "''files''" "''read''"]
    by blast
qed

text \<open>
  C10. \<open>exposeTool s t\<close> and \<open>hideTool s t\<close> leave the entry of every other
  server as it was, and within \<open>s\<close> the membership of every other tool.
\<close>

theorem expose_hide_frame:
  "(s' \<noteq> s \<longrightarrow> exposeTool reg s t s' = reg s' \<and> hideTool reg s t s' = reg s')
   \<and> (t' \<noteq> t \<longrightarrow> isExposed (exposeTool reg s t) s t' = isExposed reg s t'
               \<and> isExposed (hideTool reg s t) s t' = isExposed reg s t')"
  by (auto simp: exposeTool_def hideTool_def isExposed_def split: option.splits)

theorem expose_hide_frame_witness:
  "''mail'' \<noteq> ''files'' \<and> ''write'' \<noteq> ''read''
   \<and> exposeTool [''mail'' \<mapsto> {''send''}] ''files'' ''read'' ''mail'' = Some {''send''}
   \<and> hideTool [''mail'' \<mapsto> {''send''}, ''files'' \<mapsto> {''read'', ''write''}]
        ''files'' ''read'' ''mail'' = Some {''send''}
   \<and> isExposed
        (hideTool [''mail'' \<mapsto> {''send''}, ''files'' \<mapsto> {''read'', ''write''}]
           ''files'' ''read'') ''files'' ''write''"
proof -
  have d1: "''mail'' \<noteq> ''files''" and d2: "''write'' \<noteq> ''read''"
    by simp_all
  have e: "isExposed [''mail'' \<mapsto> {''send''}, ''files'' \<mapsto> {''read'', ''write''}]
             ''files'' ''write''"
    by (simp add: isExposed_def)
  show ?thesis
    using d1 d2 e
      expose_hide_frame [of "''mail''" "''files''" "[''mail'' \<mapsto> {''send''}]" "''read''"
                            "''write''" ]
      expose_hide_frame [of "''mail''" "''files''"
                            "[''mail'' \<mapsto> {''send''}, ''files'' \<mapsto> {''read'', ''write''}]"
                            "''read''" "''write''"]
    by simp
qed

section \<open>Registry: the initial visibility\<close>





section \<open>Dispatch: what one \<open>call_tool\<close> invocation does\<close>

lemma call_tool_unknown:
  "map_of (servers self) s = None \<Longrightarrow>
   call_tool mcp self conn s t params timeout =
     (Raises (ValueError (''Server '' @ CHR 0x27 # s @ CHR 0x27
                # '' is not defined in the configuration.'')),
      [LockAcquired, LockReleased])"
  by (simp add: call_tool_def with_lock_def)



lemma call_tool_completes:
  assumes "map_of (servers self) s = Some srv" and "aenter conn srv = Finishes d0 u"
    and "runs (remote_call_tool conn srv t (args_of params)) = Finishes d r"
    and "int d < timeout"
  shows "call_tool mcp self conn s t params timeout =
           (Returns r,
            [LockAcquired, Connecting (Server.name srv), ConnOpened (Server.name srv),
             Invoked (Server.name srv) t (args_of params), ConnClosed (Server.name srv),
             LockReleased])"
  using assms
  by (simp add: call_tool_def with_lock_def with_connection_def wait_for_def Let_def)




text \<open>
  C3, as the code has it. For a server name that is not in the catalog \<open>call_tool\<close>
  raises \<open>ValueError\<close> naming the server; the lock is taken and released, and no
  connection is attempted. No result object is returned.
\<close>

theorem call_tool_unknown_server_raises:
  "map_of (servers self) s = None \<Longrightarrow>
   call_tool mcp self conn s t params timeout =
     (Raises (ValueError (''Server '' @ CHR 0x27 # s @ CHR 0x27
                # '' is not defined in the configuration.'')),
      [LockAcquired, LockReleased])"
  by (rule call_tool_unknown)

theorem call_tool_unknown_server_raises_witness:
  "map_of (servers files_router) ''ghost-server'' = None
   \<and> call_tool mcp_v1 files_router stub_connection ''ghost-server'' ''anything'' (Some []) 300 =
       (Raises (ValueError ''Server 'ghost-server' is not defined in the configuration.''),
        [LockAcquired, LockReleased])"
proof -
  have absent: "map_of (servers files_router) ''ghost-server'' = None"
    by (simp add: files_router_def)
  show ?thesis
    using absent
      call_tool_unknown_server_raises [OF absent, of mcp_v1 stub_connection "''anything''"
                                          "Some []" 300]
    by simp
qed

theorem call_tool_unknown_server_counterexample:
  "fst (call_tool mcp_v1 files_router stub_connection ''ghost-server'' ''anything''
          (Some []) 300)
     = Raises (ValueError ''Server 'ghost-server' is not defined in the configuration.'')
   \<and> (case fst (call_tool mcp_v1 files_router stub_connection ''ghost-server'' ''anything''
                  (Some []) 300)
       of Returns r \<Rightarrow> isError r | Raises e \<Rightarrow> False | NoReturn \<Rightarrow> False) = False"
  by (simp add: call_tool_def files_router_def with_lock_def)

lemma call_tool_timed_out:
  assumes "map_of (servers self) s = Some srv" and "aenter conn srv = Finishes d0 u"
    and "wait_for (remote_call_tool conn srv t (args_of params)) timeout
           = (started, Raised TimeoutError)"
  shows "call_tool mcp self conn s t params timeout =
           (timed_out_result mcp t s,
            [LockAcquired, Connecting (Server.name srv), ConnOpened (Server.name srv)]
              @ (if started then [Invoked (Server.name srv) t (args_of params)] else [])
              @ (case timed_out_result mcp t s of
                   NoReturn \<Rightarrow> [] | out \<Rightarrow> [ConnClosed (Server.name srv), LockReleased]))"
  using assms
  by (simp add: call_tool_def with_lock_def with_connection_def Let_def
           split: outcome.splits)

text \<open>
  C5, at a failing input. With \<open>TextContent\<close> as version 1 of the \<open>mcp\<close> library
  declares it, a remote call that exceeds the timeout makes \<open>call_tool\<close> raise the
  validation error of the text block it fails to build; no error result is returned.
  The connection is still closed once, after the invocation and before the lock is
  released. The default timeout is 300 and bounds the remote call only: after a
  connection that took 1000 time units to open, a call that answers after exactly
  300 ends in the same way, and one that answers after 299 returns its result.
\<close>

theorem call_tool_timeout_raises:
  "call_tool mcp_v1 files_router slow_connection ''files'' ''sleep'' None 1 =
     (Raises (ValidationError ''TextContent: type: Field required''),
      [LockAcquired, Connecting ''files'', ConnOpened ''files'',
       Invoked ''files'' ''sleep'' [], ConnClosed ''files'', LockReleased])
   \<and> call_tool_default mcp_v1 files_router slow_connection ''files'' ''late'' =
     (Raises (ValidationError ''TextContent: type: Field required''),
      [LockAcquired, Connecting ''files'', ConnOpened ''files'',
       Invoked ''files'' ''late'' [], ConnClosed ''files'', LockReleased])
   \<and> call_tool_default mcp_v1 files_router slow_connection ''files'' ''soon'' =
     (Returns ok_result,
      [LockAcquired, Connecting ''files'', ConnOpened ''files'',
       Invoked ''files'' ''soon'' [], ConnClosed ''files'', LockReleased])"
proof -
  have known: "map_of (servers files_router) ''files'' = Some files_server"
    by (simp add: files_router_def)
  have opened: "aenter slow_connection files_server = Finishes 1000 ()"
    by (simp add: slow_connection_def)
  have nm: "Server.name files_server = ''files''"
    by (simp add: files_server_def)
  have fails: "timed_out_result mcp_v1 t ''files''
                 = Raises (ValidationError ''TextContent: type: Field required'')" for t
    by (simp add: timed_out_result_def mcp_v1_def)
  have sleep: "wait_for (remote_call_tool slow_connection files_server ''sleep'' (args_of None)) 1
                 = (True, Raised TimeoutError)"
    by (simp add: wait_for_def slow_connection_def cancel_and_wait_def)
  have late: "wait_for (remote_call_tool slow_connection files_server ''late'' (args_of None)) 300
                 = (True, Raised TimeoutError)"
    by (simp add: wait_for_def slow_connection_def cancel_and_wait_def)
  have soon: "runs (remote_call_tool slow_connection files_server ''soon'' (args_of None))
                 = Finishes 299 ok_result"
    by (simp add: slow_connection_def)
  have "call_tool mcp_v1 files_router slow_connection ''files'' ''sleep'' None 1 =
     (Raises (ValidationError ''TextContent: type: Field required''),
      [LockAcquired, Connecting ''files'', ConnOpened ''files'',
       Invoked ''files'' ''sleep'' [], ConnClosed ''files'', LockReleased])"
    by (simp add: call_tool_timed_out [OF known opened sleep] fails nm args_of_def)
  moreover have "call_tool_default mcp_v1 files_router slow_connection ''files'' ''late'' =
     (Raises (ValidationError ''TextContent: type: Field required''),
      [LockAcquired, Connecting ''files'', ConnOpened ''files'',
       Invoked ''files'' ''late'' [], ConnClosed ''files'', LockReleased])"
    by (simp add: call_tool_default_def call_tool_timed_out [OF known opened late] fails nm
          args_of_def)
  moreover have "call_tool_default mcp_v1 files_router slow_connection ''files'' ''soon'' =
     (Returns ok_result,
      [LockAcquired, Connecting ''files'', ConnOpened ''files'',
       Invoked ''files'' ''soon'' [], ConnClosed ''files'', LockReleased])"
    by (simp add: call_tool_default_def call_tool_completes [OF known opened soon] nm
          args_of_def)
  ultimately show ?thesis
    by (intro conjI)
qed

section \<open>Routing\<close>

text \<open>
  C2, as the code has it. \<open>route\<close> hands back the matcher's answer as it is: the same
  keys with the same values, among them \<open>success\<close> and \<open>matched_tools\<close> in the
  matcher's order. It consults no registry and adds no \<open>visible\<close> or \<open>hidden\<close> list.
\<close>

theorem route_returns_matcher_answer:
  "route match self query = match (matcher self) query
   \<and> map_of (route match self query) ''success''
       = map_of (match (matcher self) query) ''success''
   \<and> map_of (route match self query) ''matched_tools''
       = map_of (match (matcher self) query) ''matched_tools''
   \<and> map_of (route match self query) ''visible''
       = map_of (match (matcher self) query) ''visible''
   \<and> map_of (route match self query) ''hidden''
       = map_of (match (matcher self) query) ''hidden''"
  by (simp add: route_def)

text \<open>
  With the stub matcher the answer has no \<open>visible\<close> and no \<open>hidden\<close> entry, and the
  hidden tool \<open>delete\<close> stands in \<open>matched_tools\<close> beside the exposed ones; with a
  matcher that reports failure, \<open>success\<close> is false.
\<close>

theorem route_partition_counterexample:
  "map_of (route stub_match files_router ''open a document'') ''visible'' = None
   \<and> map_of (route stub_match files_router ''open a document'') ''hidden'' = None
   \<and> map_of (route stub_match files_router ''open a document'') ''matched_tools'' =
       Some (PyList [candidate ''files'' ''read'' 0.9, candidate ''files'' ''write'' 0.8,
                     candidate ''files'' ''delete'' 0.7])
   \<and> \<not> isExposed files_registry ''files'' ''delete''
   \<and> map_of (route failing_match files_router ''open a document'') ''success''
       = Some (PyBool False)"
  by (simp add: route_def stub_match_def failing_match_def files_registry_def isExposed_def
        exposeTool_def emptyRegistry_def)

section \<open>Construction: which configuration errors stop the gateway\<close>

lemma build_servers_invalid:
  "(key, c) \<in> set items \<Longrightarrow> \<not> truthy (command c) \<Longrightarrow> \<not> truthy (url c) \<Longrightarrow>
   build_servers acc items =
     Inl (ValidationError ''Either 'command' or 'url' must be provided'')"
proof (induction items arbitrary: acc)
  case Nil
  then show ?case by simp
next
  case (Cons item items)
  then show ?case
    by (cases item) (auto simp: check_command_or_url_def split: sum.splits)
qed

lemma Router_init_no_key:
  "\<not> truthy (getenv rt ''EMBEDDING_API_KEY'') \<Longrightarrow> isl (Router_init rt cfg)"
  by (auto simp: Router_init_def bind_exn_def Let_def split: sum.splits option.splits)

lemma Router_init_no_data:
  "data_path_of rt = [] \<or> \<not> path_exists rt (data_path_of rt) \<Longrightarrow> isl (Router_init rt cfg)"
  by (auto simp: Router_init_def bind_exn_def Let_def split: sum.splits option.splits)

lemma Router_init_load_fails:
  "load_data rt (data_path_of rt) = Some e \<Longrightarrow> isl (Router_init rt cfg)"
  by (auto simp: Router_init_def bind_exn_def Let_def split: sum.splits option.splits)

lemma Router_init_unreadable:
  "path_exists rt p \<Longrightarrow> json_load rt p = Inl e \<Longrightarrow> Router_init rt (ConfigPath p) = Inl e"
  by (simp add: Router_init_def bind_exn_def load_config_def)

lemma Router_init_absent:
  "\<not> path_exists rt p \<Longrightarrow>
   Router_init rt (ConfigPath p) = Router_init rt (ConfigDict \<lparr>mcpServers = Some []\<rparr>)"
  by (simp add: Router_init_def bind_exn_def load_config_def)

lemma Router_init_empty_servers:
  "Router_init rt (ConfigDict \<lparr>mcpServers = Some []\<rparr>) = Inr r \<Longrightarrow> servers r = []"
  by (auto simp: Router_init_def bind_exn_def load_config_def Let_def
           split: sum.splits option.splits if_splits)

lemma Router_init_invalid:
  "load_config rt cfg = Inr doc \<Longrightarrow> mcpServers doc = Some items \<Longrightarrow> (key, c) \<in> set items \<Longrightarrow>
   \<not> truthy (command c) \<Longrightarrow> \<not> truthy (url c) \<Longrightarrow>
   Router_init rt cfg = Inl (ValidationError ''Either 'command' or 'url' must be provided'')"
  by (simp add: Router_init_def bind_exn_def build_servers_invalid)

lemma Router_init_good_empty:
  "Router_init good_runtime (ConfigPath ''/missing.json'') =
     Inr \<lparr>servers = [], config = \<lparr>mcpServers = Some []\<rparr>,
          matcher = \<lparr>embedding_model = Some ''emb'', dimensions = 8, top_servers = 5,
                     top_tools = 3, client = Some (None, ''key''),
                     data = Some ''/data.json''\<rparr>\<rparr>"
  by (simp add: Router_init_def bind_exn_def load_config_def good_runtime_def int_of_env_def
        data_path_of_def py_str_def)

text \<open>
  C6, as the code has it. Constructing the router fails (the result is an exception,
  \<open>isl\<close>) when the API key is unset or empty, when the matcher data path is empty or
  names no existing file, when loading the matcher data raises, and when the catalog
  file exists but cannot be read or parsed. A catalog path that names no file is not
  an error: construction goes on exactly as with an empty catalog, and a router that
  results has no servers.
\<close>

theorem Router_init_fatal_settings:
  "(\<not> truthy (getenv rt ''EMBEDDING_API_KEY'') \<longrightarrow> isl (Router_init rt cfg))
   \<and> (data_path_of rt = [] \<or> \<not> path_exists rt (data_path_of rt) \<longrightarrow> isl (Router_init rt cfg))
   \<and> (load_data rt (data_path_of rt) = Some e \<longrightarrow> isl (Router_init rt cfg))
   \<and> (path_exists rt p \<and> json_load rt p = Inl e' \<longrightarrow> Router_init rt (ConfigPath p) = Inl e')
   \<and> (\<not> path_exists rt q \<longrightarrow>
         Router_init rt (ConfigPath q) = Router_init rt (ConfigDict \<lparr>mcpServers = Some []\<rparr>)
         \<and> (Router_init rt (ConfigPath q) = Inr r \<longrightarrow> servers r = []))"
proof (intro conjI impI)
  show "isl (Router_init rt cfg)" if "\<not> truthy (getenv rt ''EMBEDDING_API_KEY'')"
    using that by (rule Router_init_no_key)
  show "isl (Router_init rt cfg)" if "data_path_of rt = [] \<or> \<not> path_exists rt (data_path_of rt)"
    using that by (rule Router_init_no_data)
  show "isl (Router_init rt cfg)" if "load_data rt (data_path_of rt) = Some e"
    using that by (rule Router_init_load_fails)
  show "Router_init rt (ConfigPath p) = Inl e'" if "path_exists rt p \<and> json_load rt p = Inl e'"
    using that by (simp add: Router_init_unreadable)
  show "Router_init rt (ConfigPath q) = Router_init rt (ConfigDict \<lparr>mcpServers = Some []\<rparr>)"
    if "\<not> path_exists rt q"
    using that by (rule Router_init_absent)
  show "servers r = []" if "\<not> path_exists rt q" and "Router_init rt (ConfigPath q) = Inr r"
    using that by (simp add: Router_init_absent Router_init_empty_servers)
qed

theorem Router_init_fatal_settings_witness:
  "\<not> truthy (getenv (good_runtime\<lparr>getenv := (getenv good_runtime)(''EMBEDDING_API_KEY'' := None)\<rparr>)
              ''EMBEDDING_API_KEY'')
   \<and> isl (Router_init
            (good_runtime\<lparr>getenv := (getenv good_runtime)(''EMBEDDING_API_KEY'' := None)\<rparr>)
            (ConfigDict \<lparr>mcpServers = None\<rparr>))
   \<and> \<not> path_exists (good_runtime\<lparr>path_exists := (\<lambda>p. False)\<rparr>)
          (data_path_of (good_runtime\<lparr>path_exists := (\<lambda>p. False)\<rparr>))
   \<and> isl (Router_init (good_runtime\<lparr>path_exists := (\<lambda>p. False)\<rparr>)
            (ConfigDict \<lparr>mcpServers = None\<rparr>))
   \<and> isl (Router_init (good_runtime\<lparr>load_data := (\<lambda>p. Some (OtherError ''bad index''))\<rparr>)
            (ConfigDict \<lparr>mcpServers = None\<rparr>))
   \<and> Router_init good_runtime (ConfigPath ''/data.json'') = Inl (OtherError ''cannot read'')
   \<and> \<not> path_exists good_runtime ''/missing.json''
   \<and> Router_init good_runtime (ConfigPath ''/missing.json'')
       = Router_init good_runtime (ConfigDict \<lparr>mcpServers = Some []\<rparr>)
   \<and> servers \<lparr>servers = [], config = \<lparr>mcpServers = Some []\<rparr>,
               matcher = \<lparr>embedding_model = Some ''emb'', dimensions = 8, top_servers = 5,
                          top_tools = 3, client = Some (None, ''key''),
                          data = Some ''/data.json''\<rparr>\<rparr> = []"
proof -
  let ?nokey = "good_runtime\<lparr>getenv := (getenv good_runtime)(''EMBEDDING_API_KEY'' := None)\<rparr>"
  let ?nofile = "good_runtime\<lparr>path_exists := (\<lambda>p. False)\<rparr>"
  let ?noload = "good_runtime\<lparr>load_data := (\<lambda>p. Some (OtherError ''bad index''))\<rparr>"
  let ?cfg = "ConfigDict \<lparr>mcpServers = None\<rparr>"
  let ?r = "\<lparr>servers = [], config = \<lparr>mcpServers = Some []\<rparr>,
             matcher = \<lparr>embedding_model = Some ''emb'', dimensions = 8, top_servers = 5,
                        top_tools = 3, client = Some (None, ''key''),
                        data = Some ''/data.json''\<rparr>\<rparr>"
  have k: "\<not> truthy (getenv ?nokey ''EMBEDDING_API_KEY'')"
    by simp
  have d0: "\<not> path_exists ?nofile (data_path_of ?nofile)"
    by simp
  have d: "data_path_of ?nofile = [] \<or> \<not> path_exists ?nofile (data_path_of ?nofile)"
    using d0 by (rule disjI2)
  have l: "load_data ?noload (data_path_of ?noload) = Some (OtherError ''bad index'')"
    by simp
  have u: "path_exists good_runtime ''/data.json''
           \<and> json_load good_runtime ''/data.json'' = Inl (OtherError ''cannot read'')"
    by (simp add: good_runtime_def)
  have a: "\<not> path_exists good_runtime ''/missing.json''"
    by (simp add: good_runtime_def)
  have g: "Router_init good_runtime (ConfigPath ''/missing.json'') = Inr ?r"
    by (rule Router_init_good_empty)
  note t1 = Router_init_fatal_settings
              [of ?nokey ?cfg TimeoutError "[]" TimeoutError "[]" ?r]
  note t2 = Router_init_fatal_settings
              [of ?nofile ?cfg TimeoutError "[]" TimeoutError "[]" ?r]
  note t3 = Router_init_fatal_settings
              [of ?noload ?cfg "OtherError ''bad index''" "[]" TimeoutError "[]" ?r]
  note t4 = Router_init_fatal_settings
              [of good_runtime ?cfg TimeoutError "''/data.json''"
                  "OtherError ''cannot read''" "''/missing.json''" ?r]
  have f1: "isl (Router_init ?nokey ?cfg)"
    by (rule t1 [THEN conjunct1, THEN mp, OF k])
  have f2: "isl (Router_init ?nofile ?cfg)"
    by (rule t2 [THEN conjunct2, THEN conjunct1, THEN mp, OF d])
  have f3: "isl (Router_init ?noload ?cfg)"
    by (rule t3 [THEN conjunct2, THEN conjunct2, THEN conjunct1, THEN mp, OF l])
  have f4: "Router_init good_runtime (ConfigPath ''/data.json'') = Inl (OtherError ''cannot read'')"
    by (rule t4 [THEN conjunct2, THEN conjunct2, THEN conjunct2, THEN conjunct1, THEN mp, OF u])
  note t5 = t4 [THEN conjunct2, THEN conjunct2, THEN conjunct2, THEN conjunct2, THEN mp, OF a]
  have f5: "Router_init good_runtime (ConfigPath ''/missing.json'')
              = Router_init good_runtime (ConfigDict \<lparr>mcpServers = Some []\<rparr>)"
    by (rule t5 [THEN conjunct1])
  have f6: "servers ?r = []"
    by (rule t5 [THEN conjunct2, THEN mp, OF g])
  show ?thesis
    by (intro conjI k f1 d0 f2 f3 f4 a f5 f6)
qed

text \<open>
  With every setting in place and a catalog path that names no file, construction
  succeeds with an empty server list.
\<close>

theorem Router_init_absent_catalog_counterexample:
  "\<not> path_exists good_runtime ''/missing.json''
   \<and> Router_init good_runtime (ConfigPath ''/missing.json'') =
       Inr \<lparr>servers = [], config = \<lparr>mcpServers = Some []\<rparr>,
            matcher = \<lparr>embedding_model = Some ''emb'', dimensions = 8, top_servers = 5,
                       top_tools = 3, client = Some (None, ''key''),
                       data = Some ''/data.json''\<rparr>\<rparr>"
  by (simp add: Router_init_def bind_exn_def load_config_def good_runtime_def int_of_env_def
        data_path_of_def py_str_def)

text \<open>
  C7, as the code has it. The validator accepts a descriptor exactly when it has a
  non-empty command or a non-empty URL, so one with both is accepted. One with
  neither is rejected with a validation error, and a catalog that holds such an
  entry makes the construction of the router fail with that error, before any call.
\<close>

theorem check_command_or_url_at_least_one:
  "(check_command_or_url c = Inr c \<longleftrightarrow> truthy (command c) \<or> truthy (url c))
   \<and> (\<not> truthy (command c) \<and> \<not> truthy (url c) \<longrightarrow>
        check_command_or_url c =
          Inl (ValidationError ''Either 'command' or 'url' must be provided'')
        \<and> (load_config rt cfg = Inr doc \<and> mcpServers doc = Some items \<and> (key, c) \<in> set items
             \<longrightarrow> Router_init rt cfg =
                   Inl (ValidationError ''Either 'command' or 'url' must be provided'')))"
proof (intro conjI impI)
  show "check_command_or_url c = Inr c \<longleftrightarrow> truthy (command c) \<or> truthy (url c)"
    by (simp add: check_command_or_url_def)
  show "check_command_or_url c =
          Inl (ValidationError ''Either 'command' or 'url' must be provided'')"
    if "\<not> truthy (command c) \<and> \<not> truthy (url c)"
    using that by (simp add: check_command_or_url_def)
  show "Router_init rt cfg =
          Inl (ValidationError ''Either 'command' or 'url' must be provided'')"
    if "\<not> truthy (command c) \<and> \<not> truthy (url c)"
      and "load_config rt cfg = Inr doc \<and> mcpServers doc = Some items \<and> (key, c) \<in> set items"
    using that Router_init_invalid [of rt cfg doc items key c] by blast
qed

theorem check_command_or_url_at_least_one_witness:
  "\<not> truthy (command neither_form) \<and> \<not> truthy (url neither_form)
   \<and> check_command_or_url neither_form =
       Inl (ValidationError ''Either 'command' or 'url' must be provided'')
   \<and> Router_init good_runtime
        (ConfigDict \<lparr>mcpServers = Some [(''both'', both_forms), (''bad'', neither_form)]\<rparr>)
       = Inl (ValidationError ''Either 'command' or 'url' must be provided'')
   \<and> check_command_or_url both_forms = Inr both_forms"
proof -
  let ?items = "[(''both'', both_forms), (''bad'', neither_form)]"
  let ?doc = "\<lparr>mcpServers = Some ?items\<rparr>"
  let ?cfg = "ConfigDict ?doc"
  have n1: "\<not> truthy (command neither_form)" and n2: "\<not> truthy (url neither_form)"
    by (simp_all add: neither_form_def)
  have l: "load_config good_runtime ?cfg = Inr ?doc \<and> mcpServers ?doc = Some ?items
           \<and> (''bad'', neither_form) \<in> set ?items"
    by (simp add: load_config_def)
  have b: "truthy (command both_forms) \<or> truthy (url both_forms)"
    by (simp add: both_forms_def)
  note t = check_command_or_url_at_least_one
             [of neither_form good_runtime ?cfg ?doc ?items "''bad''",
              THEN conjunct2, THEN mp, OF conjI [OF n1 n2]]
  have f1: "check_command_or_url neither_form =
              Inl (ValidationError ''Either 'command' or 'url' must be provided'')"
    by (rule t [THEN conjunct1])
  have f2: "Router_init good_runtime ?cfg =
              Inl (ValidationError ''Either 'command' or 'url' must be provided'')"
    by (rule t [THEN conjunct2, THEN mp, OF l])
  have f3: "check_command_or_url both_forms = Inr both_forms"
    by (rule check_command_or_url_at_least_one
               [of both_forms good_runtime ?cfg ?doc ?items "''bad''",
                THEN conjunct1, THEN iffD2, OF b])
  show ?thesis
    by (intro conjI n1 n2 f1 f2 f3)
qed

theorem check_command_or_url_both_counterexample:
  "truthy (command both_forms) \<and> truthy (url both_forms)
   \<and> check_command_or_url both_forms = Inr both_forms
   \<and> Router_init good_runtime (ConfigDict \<lparr>mcpServers = Some [(''both'', both_forms)]\<rparr>) =
       Inr \<lparr>servers = [(''both'', \<lparr>Server.name = ''both'', description = None,
                                   config = both_forms, tools = None\<rparr>)],
            config = \<lparr>mcpServers = Some [(''both'', both_forms)]\<rparr>,
            matcher = \<lparr>embedding_model = Some ''emb'', dimensions = 8, top_servers = 5,
                       top_tools = 3, client = Some (None, ''key''),
                       data = Some ''/data.json''\<rparr>\<rparr>"
  by (simp add: Router_init_def bind_exn_def load_config_def good_runtime_def int_of_env_def
        data_path_of_def py_str_def check_command_or_url_def both_forms_def)

section \<open>Dispatch under concurrent callers\<close>

lemma in_critical_snoc: "in_critical (past @ [e]) = holds_after (in_critical past) e"
  by (simp add: in_critical_def)

lemma connection_active_snoc:
  "connection_active (past @ [e]) = active_after (connection_active past) e"
  by (simp add: connection_active_def)

lemma connection_open_snoc: "connection_open (past @ [e]) = open_after (connection_open past) e"
  by (simp add: connection_open_def)

lemma guarded_inside: "guarded h a c es \<Longrightarrow> (a \<longrightarrow> h) \<and> (c \<longrightarrow> h)"
  by (cases es) simp_all

lemma guarded_next: "guarded h a c (e # es) \<Longrightarrow> e \<noteq> LockAcquired \<Longrightarrow> h"
  by simp

lemma call_tool_guarded:
  "guarded False False False (snd (call_tool mcp self conn s t params timeout))"
  by (auto simp: call_tool_def with_lock_def with_connection_def wait_for_def Let_def
           split: option.splits awaited.splits outcome.splits)

lemma dispatch_inv_start: "dispatch_inv (start mcp routers calls)"
  by (simp add: dispatch_inv_def start_def in_critical_def connection_active_def
        connection_open_def call_tool_guarded)

lemma dispatch_inv_step:
  assumes inv: "dispatch_inv st" and st: "step st i = Some st'"
  shows "dispatch_inv st'"
proof -
  from st have i: "i < length (tasks st)"
    by (simp add: step_def split: if_splits)
  define ti where "ti = tasks st ! i"
  from st i obtain e rest where todo: "pending ti = e # rest"
    by (cases "pending ti") (simp_all add: step_def ti_def Let_def)
  from st i todo have free: "e = LockAcquired \<Longrightarrow> locks st (task_router ti) = None"
    by (auto simp: step_def ti_def Let_def split: if_splits)
  from st i todo have st': "st' = \<lparr>locks =
                          (if e = LockAcquired then (locks st)(task_router ti \<mapsto> i)
                           else if e = LockReleased then (locks st)(task_router ti := None)
                           else locks st),
                        tasks = (tasks st)[i := ti\<lparr>performed := performed ti @ [e],
                                                     pending := rest\<rparr>]\<rparr>"
    by (auto simp: step_def ti_def Let_def split: if_splits)
  note at_i = inv [unfolded dispatch_inv_def, rule_format, OF i, folded ti_def]
  from at_i have gi: "guarded (in_critical (performed ti)) (connection_active (performed ti))
                        (connection_open (performed ti)) (e # rest)"
    and hi: "in_critical (performed ti) \<longleftrightarrow> locks st (task_router ti) = Some i"
    unfolding todo by blast+
  show ?thesis
    unfolding dispatch_inv_def
  proof (intro allI impI)
    fix j assume "j < length (tasks st')"
    then have j: "j < length (tasks st)"
      by (simp add: st')
    define tj where "tj = tasks st ! j"
    note at_j = inv [unfolded dispatch_inv_def, rule_format, OF j, folded tj_def]
    from at_j have gj: "guarded (in_critical (performed tj)) (connection_active (performed tj))
                          (connection_open (performed tj)) (pending tj)"
      and hj: "in_critical (performed tj) \<longleftrightarrow> locks st (task_router tj) = Some j"
      by blast+
    show "guarded (in_critical (performed (tasks st' ! j)))
            (connection_active (performed (tasks st' ! j)))
            (connection_open (performed (tasks st' ! j))) (pending (tasks st' ! j))
          \<and> (in_critical (performed (tasks st' ! j))
               \<longleftrightarrow> locks st' (task_router (tasks st' ! j)) = Some j)"
    proof (cases "j = i")
      case True
      with gi hi free i show ?thesis
        by (cases e)
           (auto simp: st' in_critical_snoc connection_active_snoc connection_open_snoc)
    next
      case False
      then have same: "tasks st' ! j = tj"
        using i j by (simp add: st' tj_def)
      from False gj hj gi hi free show ?thesis
        unfolding same
        by (cases e) (auto simp: st')
    qed
  qed
qed

lemma dispatch_inv_run:
  "dispatch_inv st \<Longrightarrow> run st schedule = Some st' \<Longrightarrow> dispatch_inv st'"
proof (induction schedule arbitrary: st)
  case Nil
  then show ?case by simp
next
  case (Cons i schedule)
  then show ?case
    by (auto split: option.splits dest: dispatch_inv_step)
qed

lemma at_most_one:
  "(\<forall>i < length xs. \<forall>j < length xs. P (xs ! i) \<and> P (xs ! j) \<longrightarrow> i = j) \<Longrightarrow>
   length (filter P xs) \<le> 1"
proof (induction xs)
  case Nil
  then show ?case by simp
next
  case (Cons x xs)
  have tail: "\<forall>i < length xs. \<forall>j < length xs. P (xs ! i) \<and> P (xs ! j) \<longrightarrow> i = j"
  proof (intro allI impI)
    fix i j assume "i < length xs" "j < length xs" "P (xs ! i) \<and> P (xs ! j)"
    with Cons.prems have "Suc i = Suc j"
      by (metis length_Cons nth_Cons_Suc Suc_less_eq)
    then show "i = j" by simp
  qed
  show ?case
  proof (cases "P x")
    case False
    with Cons.IH [OF tail] show ?thesis by simp
  next
    case True
    have "filter P xs = []"
    proof (rule ccontr)
      assume "filter P xs \<noteq> []"
      then obtain y where "y \<in> set xs" "P y"
        by (metis filter_empty_conv)
      then obtain k where "k < length xs" "xs ! k = y"
        by (metis in_set_conv_nth)
      with Cons.prems True \<open>P y\<close> have "0 = Suc k"
        by (metis length_Cons nth_Cons_0 nth_Cons_Suc Suc_less_eq zero_less_Suc)
      then show False by simp
    qed
    with True show ?thesis by simp
  qed
qed

text \<open>
  C4, as the code has it. The lock belongs to the router object. In every state that
  invocations reach, under any interleaving: among the invocations on one router at
  most one is between taking the lock and releasing it, at most one is in the
  connect, invoke, close section, and at most one has a connection open; an
  invocation in the connection section is inside the lock; the invocation inside the
  lock is the holder of its router's lock; and every event other than taking the
  lock (connecting, opening, invoking, closing, releasing) is performed by the
  holder. Invocations on different routers do not exclude each other.
\<close>

theorem dispatch_mutual_exclusion:
  "run (start mcp routers calls) schedule = Some st \<Longrightarrow>
   length (filter (\<lambda>t. task_router t = k \<and> in_critical (performed t)) (tasks st)) \<le> 1
   \<and> length (filter (\<lambda>t. task_router t = k \<and> connection_active (performed t)) (tasks st)) \<le> 1
   \<and> length (filter (\<lambda>t. task_router t = k \<and> connection_open (performed t)) (tasks st)) \<le> 1
   \<and> (\<forall>t \<in> set (tasks st).
         (connection_active (performed t) \<longrightarrow> in_critical (performed t))
         \<and> (connection_open (performed t) \<longrightarrow> in_critical (performed t)))
   \<and> (\<forall>i < length (tasks st).
         (in_critical (performed (tasks st ! i))
            \<longleftrightarrow> locks st (task_router (tasks st ! i)) = Some i)
         \<and> (\<forall>e rest. pending (tasks st ! i) = e # rest \<and> e \<noteq> LockAcquired
               \<longrightarrow> locks st (task_router (tasks st ! i)) = Some i))"
proof -
  assume "run (start mcp routers calls) schedule = Some st"
  with dispatch_inv_start have inv: "dispatch_inv st"
    by (rule dispatch_inv_run)
  have held: "in_critical (performed (tasks st ! i))
                \<longleftrightarrow> locks st (task_router (tasks st ! i)) = Some i"
    and grd: "guarded (in_critical (performed (tasks st ! i)))
                (connection_active (performed (tasks st ! i)))
                (connection_open (performed (tasks st ! i))) (pending (tasks st ! i))"
    if "i < length (tasks st)" for i
    using inv [unfolded dispatch_inv_def, rule_format, OF that] by blast+
  have under: "connection_active (performed (tasks st ! i))
                 \<longrightarrow> in_critical (performed (tasks st ! i))"
    and under': "connection_open (performed (tasks st ! i))
                 \<longrightarrow> in_critical (performed (tasks st ! i))"
    if "i < length (tasks st)" for i
    using guarded_inside [OF grd [OF that]] by blast+
  have unique: "i = j"
    if "i < length (tasks st)" "j < length (tasks st)"
      and "task_router (tasks st ! i) = k" "task_router (tasks st ! j) = k"
      and "in_critical (performed (tasks st ! i))" "in_critical (performed (tasks st ! j))"
    for i j
  proof -
    from that(1,3,5) held [of i] have "locks st k = Some i"
      by simp
    moreover from that(2,4,6) held [of j] have "locks st k = Some j"
      by simp
    ultimately show ?thesis by simp
  qed
  have one_inside:
    "length (filter (\<lambda>t. task_router t = k \<and> in_critical (performed t)) (tasks st)) \<le> 1"
  proof (rule at_most_one, intro allI impI)
    fix i j
    assume i: "i < length (tasks st)" and j: "j < length (tasks st)"
      and h: "(task_router (tasks st ! i) = k \<and> in_critical (performed (tasks st ! i)))
           \<and> (task_router (tasks st ! j) = k \<and> in_critical (performed (tasks st ! j)))"
    from h have ri: "task_router (tasks st ! i) = k" and rj: "task_router (tasks st ! j) = k"
      by simp_all
    from h have ci: "in_critical (performed (tasks st ! i))"
      and cj: "in_critical (performed (tasks st ! j))"
      by simp_all
    show "i = j"
      by (rule unique [OF i j ri rj ci cj])
  qed
  have one_active:
    "length (filter (\<lambda>t. task_router t = k \<and> connection_active (performed t)) (tasks st)) \<le> 1"
  proof (rule at_most_one, intro allI impI)
    fix i j
    assume i: "i < length (tasks st)" and j: "j < length (tasks st)"
      and h: "(task_router (tasks st ! i) = k \<and> connection_active (performed (tasks st ! i)))
           \<and> (task_router (tasks st ! j) = k \<and> connection_active (performed (tasks st ! j)))"
    from h have ri: "task_router (tasks st ! i) = k" and rj: "task_router (tasks st ! j) = k"
      by simp_all
    from under [OF i] under [OF j] have ci: "in_critical (performed (tasks st ! i))"
      and cj: "in_critical (performed (tasks st ! j))"
      using h by simp_all
    show "i = j"
      by (rule unique [OF i j ri rj ci cj])
  qed
  have one_open:
    "length (filter (\<lambda>t. task_router t = k \<and> connection_open (performed t)) (tasks st)) \<le> 1"
  proof (rule at_most_one, intro allI impI)
    fix i j
    assume i: "i < length (tasks st)" and j: "j < length (tasks st)"
      and h: "(task_router (tasks st ! i) = k \<and> connection_open (performed (tasks st ! i)))
           \<and> (task_router (tasks st ! j) = k \<and> connection_open (performed (tasks st ! j)))"
    from h have ri: "task_router (tasks st ! i) = k" and rj: "task_router (tasks st ! j) = k"
      by simp_all
    from under' [OF i] under' [OF j] have ci: "in_critical (performed (tasks st ! i))"
      and cj: "in_critical (performed (tasks st ! j))"
      using h by simp_all
    show "i = j"
      by (rule unique [OF i j ri rj ci cj])
  qed
  have nested: "\<forall>t \<in> set (tasks st).
         (connection_active (performed t) \<longrightarrow> in_critical (performed t))
         \<and> (connection_open (performed t) \<longrightarrow> in_critical (performed t))"
  proof
    fix t assume "t \<in> set (tasks st)"
    then obtain i where "i < length (tasks st)" and "tasks st ! i = t"
      by (auto simp: in_set_conv_nth)
    with under [of i] under' [of i]
    show "(connection_active (performed t) \<longrightarrow> in_critical (performed t))
         \<and> (connection_open (performed t) \<longrightarrow> in_critical (performed t))"
      by simp
  qed
  have holder: "\<forall>i < length (tasks st).
         (in_critical (performed (tasks st ! i))
            \<longleftrightarrow> locks st (task_router (tasks st ! i)) = Some i)
         \<and> (\<forall>e rest. pending (tasks st ! i) = e # rest \<and> e \<noteq> LockAcquired
               \<longrightarrow> locks st (task_router (tasks st ! i)) = Some i)"
  proof (intro allI impI conjI)
    fix i assume i: "i < length (tasks st)"
    show "in_critical (performed (tasks st ! i))
            \<longleftrightarrow> locks st (task_router (tasks st ! i)) = Some i"
      by (rule held [OF i])
    fix e rest
    assume "pending (tasks st ! i) = e # rest \<and> e \<noteq> LockAcquired"
    with grd [OF i] have "in_critical (performed (tasks st ! i))"
      by (auto dest: guarded_next)
    with held [OF i] show "locks st (task_router (tasks st ! i)) = Some i"
      by simp
  qed
  from one_inside one_active one_open nested holder show ?thesis
    by (intro conjI)
qed

lemma same_router_reach:
  "run (start mcp_v1 (\<lambda>k. files_router) same_router_calls) [0, 0, 0] =
     Some \<lparr>locks = [0 \<mapsto> 0],
           tasks = [\<lparr>task_router = 0,
                     performed = [LockAcquired, Connecting ''files'', ConnOpened ''files''],
                     pending = [Invoked ''files'' ''read'' [], ConnClosed ''files'',
                                LockReleased]\<rparr>,
                    \<lparr>task_router = 0, performed = [],
                     pending = [LockAcquired, Connecting ''files'', ConnOpened ''files'',
                                Invoked ''files'' ''write'' [], ConnClosed ''files'',
                                LockReleased]\<rparr>]\<rparr>"
  by (simp add: start_def same_router_calls_def call_tool_def files_router_def with_lock_def
        with_connection_def stub_connection_def files_server_def args_of_def step_def
        wait_for_def Let_def)

theorem dispatch_mutual_exclusion_witness:
  "run (start mcp_v1 (\<lambda>k. files_router) same_router_calls) [0, 0, 0] =
     Some \<lparr>locks = [0 \<mapsto> 0],
           tasks = [\<lparr>task_router = 0,
                     performed = [LockAcquired, Connecting ''files'', ConnOpened ''files''],
                     pending = [Invoked ''files'' ''read'' [], ConnClosed ''files'',
                                LockReleased]\<rparr>,
                    \<lparr>task_router = 0, performed = [],
                     pending = [LockAcquired, Connecting ''files'', ConnOpened ''files'',
                                Invoked ''files'' ''write'' [], ConnClosed ''files'',
                                LockReleased]\<rparr>]\<rparr>
   \<and> length (filter (\<lambda>t. task_router t = 0 \<and> connection_open (performed t))
         [\<lparr>task_router = 0,
           performed = [LockAcquired, Connecting ''files'', ConnOpened ''files''],
           pending = [Invoked ''files'' ''read'' [], ConnClosed ''files'', LockReleased]\<rparr>,
          \<lparr>task_router = 0, performed = [],
           pending = [LockAcquired, Connecting ''files'', ConnOpened ''files'',
                      Invoked ''files'' ''write'' [], ConnClosed ''files'',
                      LockReleased]\<rparr>]) \<le> 1
   \<and> step \<lparr>locks = [0 \<mapsto> 0],
           tasks = [\<lparr>task_router = 0,
                     performed = [LockAcquired, Connecting ''files'', ConnOpened ''files''],
                     pending = [Invoked ''files'' ''read'' [], ConnClosed ''files'',
                                LockReleased]\<rparr>,
                    \<lparr>task_router = 0, performed = [],
                     pending = [LockAcquired, Connecting ''files'', ConnOpened ''files'',
                                Invoked ''files'' ''write'' [], ConnClosed ''files'',
                                LockReleased]\<rparr>]\<rparr> 1 = None"
proof -
  let ?st = "\<lparr>locks = [0 \<mapsto> (0::nat)],
           tasks = [\<lparr>task_router = 0,
                     performed = [LockAcquired, Connecting ''files'', ConnOpened ''files''],
                     pending = [Invoked ''files'' ''read'' [], ConnClosed ''files'',
                                LockReleased]\<rparr>,
                    \<lparr>task_router = 0, performed = [],
                     pending = [LockAcquired, Connecting ''files'', ConnOpened ''files'',
                                Invoked ''files'' ''write'' [], ConnClosed ''files'',
                                LockReleased]\<rparr>]\<rparr>"
  have reach: "run (start mcp_v1 (\<lambda>k. files_router) same_router_calls) [0, 0, 0] = Some ?st"
    by (rule same_router_reach)
  have "length (filter (\<lambda>t. task_router t = 0 \<and> connection_open (performed t)) (tasks ?st)) \<le> 1"
    by (rule dispatch_mutual_exclusion
               [OF reach, THEN conjunct2, THEN conjunct2, THEN conjunct1])
  then have one: "length (filter (\<lambda>t. task_router t = 0 \<and> connection_open (performed t))
         [\<lparr>task_router = 0,
           performed = [LockAcquired, Connecting ''files'', ConnOpened ''files''],
           pending = [Invoked ''files'' ''read'' [], ConnClosed ''files'', LockReleased]\<rparr>,
          \<lparr>task_router = 0, performed = [],
           pending = [LockAcquired, Connecting ''files'', ConnOpened ''files'',
                      Invoked ''files'' ''write'' [], ConnClosed ''files'',
                      LockReleased]\<rparr>]) \<le> 1"
    by (simp only: dispatch_state.simps)
  have blocked: "step ?st 1 = None"
    by (simp add: step_def Let_def)
  show ?thesis
    by (intro conjI reach one blocked)
qed

text \<open>
  Two routers in one process: each invocation takes the lock of its own router, and
  after three steps of each both connections are open at once.
\<close>

theorem dispatch_two_routers_counterexample:
  "map_option open_connections
     (run (start mcp_v1 (\<lambda>k. files_router) two_router_calls) [0, 0, 0, 1, 1, 1]) = Some 2
   \<and> map_option active_connections
     (run (start mcp_v1 (\<lambda>k. files_router) two_router_calls) [0, 0, 0, 1, 1, 1]) = Some 2"
  by (simp add: start_def two_router_calls_def call_tool_def files_router_def with_lock_def
        with_connection_def stub_connection_def files_server_def args_of_def step_def
        wait_for_def Let_def open_connections_def active_connections_def
        connection_open_def connection_active_def)

end
